theory Spec2Isabelle
  imports Complex_Main "HOL-Library.Multiset" "HOL-Library.Sublist"
begin

section \<open>Strings\<close>

text \<open>
  JavaScript strings are modelled as \<open>string\<close> (a list of characters). All the
  characters the code below tests for (the double quote, the decimal digits, the unit
  letters, the bar) are ASCII, so a test on one code unit of the source is a test on one
  character of the model.
\<close>

definition dquote :: char where
  "dquote = CHR 0x22"

definition startsWith :: "string \<Rightarrow> string \<Rightarrow> bool" where
  "startsWith text p = (take (length p) text = p)"

definition endsWith :: "string \<Rightarrow> string \<Rightarrow> bool" where
  "endsWith text p = (length p \<le> length text \<and> drop (length text - length p) text = p)"

text \<open>
  \<^verbatim>\<open>getQuotedText(text)\<close>: the text itself when it already starts and ends with a double
  quote, the text wrapped in double quotes otherwise.
\<close>

definition getQuotedText :: "string \<Rightarrow> string" where
  "getQuotedText text =
     (if startsWith text [dquote] \<and> endsWith text [dquote] then text
      else [dquote] @ text @ [dquote])"

section \<open>The duration schema\<close>

text \<open>
  \<^verbatim>\<open>durationSchema\<close> is \<^verbatim>\<open>z.string().regex(/^\d+[m|d|s|h]$/).transform(...)\<close>. Inside a
  character class the bar is an ordinary character, so both classes of the source contain
  the four letters and the bar. The two classes are kept as the source writes them.
\<close>

definition is_digit :: "char \<Rightarrow> bool" where
  "is_digit c = (c \<in> set ''0123456789'')"

definition validation_class :: "char list" where
  "validation_class = ''m|d|s|h''"

definition match_class :: "char list" where
  "match_class = ''m|s|h|d''"

text \<open>
  The validation regex \<^verbatim>\<open>^\d+[m|d|s|h]$\<close> is anchored at both ends. \<^verbatim>\<open>\d+\<close> is greedy:
  it first takes every leading digit and gives digits back one at a time; \<open>try_test s k\<close>
  tries the split after \<open>k\<close> digits, longest first, and asks for exactly one character of
  the class up to the end of the string.
\<close>

fun try_test :: "string \<Rightarrow> nat \<Rightarrow> bool" where
  "try_test s 0 = False"
| "try_test s (Suc k) =
     ((case drop (Suc k) s of [c] \<Rightarrow> c \<in> set validation_class | _ \<Rightarrow> False)
      \<or> try_test s k)"

definition regex_test :: "string \<Rightarrow> bool" where
  "regex_test s = try_test s (length (takeWhile is_digit s))"

text \<open>
  \<^verbatim>\<open>val.match(/(\d+)([m|s|h|d])/)\<close> is not anchored: the engine tries every start position
  from the left, and at each one backtracks over the digits taken by \<^verbatim>\<open>\d+\<close>. The result
  holds the two groups; \<open>None\<close> is JavaScript's \<^verbatim>\<open>null\<close>.
\<close>

fun try_match :: "string \<Rightarrow> nat \<Rightarrow> (string \<times> char) option" where
  "try_match s 0 = None"
| "try_match s (Suc k) =
     (case drop (Suc k) s of
        [] \<Rightarrow> try_match s k
      | c # _ \<Rightarrow> if c \<in> set match_class then Some (take (Suc k) s, c) else try_match s k)"

fun regex_match :: "string \<Rightarrow> (string \<times> char) option" where
  "regex_match [] = None"
| "regex_match (c # cs) =
     (case try_match (c # cs) (length (takeWhile is_digit (c # cs))) of
        Some r \<Rightarrow> Some r
      | None \<Rightarrow> regex_match cs)"

text \<open>
  \<^verbatim>\<open>parseInt(parts[1], 10)\<close> on a string of decimal digits. The model keeps the exact
  number; JavaScript rounds it to a double beyond \<open>2^53\<close>.
\<close>

definition digit_val :: "char \<Rightarrow> nat" where
  "digit_val c = of_char c - of_char CHR ''0''"

definition parseInt10 :: "string \<Rightarrow> nat" where
  "parseInt10 ds = foldl (\<lambda>n c. 10 * n + digit_val c) 0 ds"

text \<open>
  The value the transform returns: \<^verbatim>\<open>moment.duration(value, unit)\<close> with its \<^verbatim>\<open>toJSON\<close>
  replaced by \<^verbatim>\<open>() => val\<close>. The record holds the two arguments given to the moment
  library and the string the replaced \<^verbatim>\<open>toJSON\<close> returns.
\<close>

record duration =
  duration_value :: nat
  duration_unit :: char
  toJSON :: string

datatype parse_error =
    InvalidString
  | UnableToParseDuration

definition durationSchema :: "string \<Rightarrow> parse_error + duration" where
  "durationSchema val =
     (if \<not> regex_test val then Inl InvalidString
      else case regex_match val of
             None \<Rightarrow> Inl UnableToParseDuration
           | Some (num, u) \<Rightarrow>
               Inr \<lparr>duration_value = parseInt10 num, duration_unit = u, toJSON = val\<rparr>)"

section \<open>The metadata schema\<close>

text \<open>
  A JavaScript value as far as \<^verbatim>\<open>metadataSchema\<close> tells values apart: \<^verbatim>\<open>undefined\<close> (also
  a key that is absent), a string, a number, anything else (\<^verbatim>\<open>null\<close>, booleans, arrays,
  objects, and \<^verbatim>\<open>NaN\<close>, which \<^verbatim>\<open>z.number()\<close> refuses). Numbers are compared only with
  \<open>1\<close>, which is exact on doubles, so they are modelled as reals; the two infinities,
  which compare with \<open>1\<close> as a very large and a very small number do, are left out.
\<close>

datatype jsval = JUndefined | JString string | JNumber real | JOther

text \<open>
  The input of the schema: an object (of which only the keys \<^verbatim>\<open>source\<close>,
  \<^verbatim>\<open>destination\<close> and \<^verbatim>\<open>limit\<close> are read, the others being stripped), a bare string, or
  any other value.
\<close>

datatype metadata_input =
    ObjectInput jsval jsval jsval
  | StringInput string
  | OtherInput

record metadata =
  md_source :: string
  md_destination :: string
  md_limit :: real

datatype zod_issue =
    InvalidUnion
  | Custom "string list" string

text \<open>
  \<^verbatim>\<open>z.object({ source: z.string(), destination: z.optional(z.string()),
  limit: z.optional(z.number().default(1000)) })\<close>: every key is checked against its
  schema; \<^verbatim>\<open>z.optional\<close> lets \<^verbatim>\<open>undefined\<close> through as it is.
\<close>

definition zString :: "jsval \<Rightarrow> string option" where
  "zString v = (case v of JString s \<Rightarrow> Some s | _ \<Rightarrow> None)"

definition zOptionalString :: "jsval \<Rightarrow> string option option" where
  "zOptionalString v =
     (case v of JUndefined \<Rightarrow> Some None | JString s \<Rightarrow> Some (Some s) | _ \<Rightarrow> None)"

definition zOptionalNumber :: "jsval \<Rightarrow> real option option" where
  "zOptionalNumber v =
     (case v of JUndefined \<Rightarrow> Some None | JNumber n \<Rightarrow> Some (Some n) | _ \<Rightarrow> None)"

text \<open>
  The object branch with its transform:
  \<^verbatim>\<open>destination: metadata.destination ?? metadata.source, limit: metadata.limit ?? 1000\<close>.
\<close>

definition objectBranch :: "jsval \<Rightarrow> jsval \<Rightarrow> jsval \<Rightarrow> metadata option" where
  "objectBranch src dst lmt =
     (case (zString src, zOptionalString dst, zOptionalNumber lmt) of
        (Some s, Some d, Some l) \<Rightarrow>
          Some \<lparr>md_source = s,
                md_destination = (case d of None \<Rightarrow> s | Some d' \<Rightarrow> d'),
                md_limit = (case l of None \<Rightarrow> 1000 | Some l' \<Rightarrow> l')\<rparr>
      | _ \<Rightarrow> None)"

text \<open>The string branch: \<^verbatim>\<open>({ source: value, destination: value, limit: 1000 })\<close>.\<close>

definition stringBranch :: "string \<Rightarrow> metadata" where
  "stringBranch v = \<lparr>md_source = v, md_destination = v, md_limit = 1000\<rparr>"

text \<open>\<^verbatim>\<open>.or(...)\<close>: the first branch that parses the input gives the value.\<close>

definition unionSchema :: "metadata_input \<Rightarrow> metadata option" where
  "unionSchema i =
     (case i of
        ObjectInput src dst lmt \<Rightarrow> objectBranch src dst lmt
      | StringInput v \<Rightarrow> Some (stringBranch v)
      | OtherInput \<Rightarrow> None)"

text \<open>\<^verbatim>\<open>.superRefine\<close>: the three checks each add an issue; none stops the others.\<close>

definition superRefine :: "metadata \<Rightarrow> zod_issue list" where
  "superRefine v =
     (if md_limit v < 1 then [Custom [''limit''] ''limit should be greater than 1''] else []) @
     (if length (md_source v) = 0
      then [Custom [''source''] ''source should not be empty''] else []) @
     (if length (md_destination v) = 0
      then [Custom [''destination''] ''destination should not be empty''] else [])"

definition metadataSchema :: "metadata_input \<Rightarrow> zod_issue list + metadata" where
  "metadataSchema i =
     (case unionSchema i of
        None \<Rightarrow> Inl [InvalidUnion]
      | Some v \<Rightarrow> (case superRefine v of [] \<Rightarrow> Inr v | is \<Rightarrow> Inl is))"

section \<open>The Delete exception list contract\<close>

text \<open>
  The OpenAPI document of \<^verbatim>\<open>DELETE /api/exception_lists\<close> is data; it is transcribed
  key by key.
\<close>

datatype schema = Ref string | OneOf "schema list"

record parameter =
  p_name :: string
  p_in :: string
  p_required :: bool
  p_description :: "string option"
  p_schema :: schema
  p_schema_default :: "string option"

record response =
  r_status :: nat
  r_description :: string
  r_content :: "(string \<times> schema) list"

record operation =
  x_labels :: "string list"
  operationId :: string
  x_codegen_enabled :: bool
  summary :: string
  tags :: "string list"
  parameters :: "parameter list"
  responses :: "response list"

definition common_schema :: "string \<Rightarrow> string" where
  "common_schema n = ''../model/exception_list_common.schema.yaml#/components/schemas/'' @ n"

definition error_schema :: "string \<Rightarrow> string" where
  "error_schema n =
     ''../../../kbn-openapi-common/schemas/error_responses.schema.yaml#/components/schemas/'' @ n"

definition ExceptionList :: schema where
  "ExceptionList = Ref (common_schema ''ExceptionList'')"

definition PlatformErrorResponse :: schema where
  "PlatformErrorResponse = Ref (error_schema ''PlatformErrorResponse'')"

definition SiemErrorResponse :: schema where
  "SiemErrorResponse = Ref (error_schema ''SiemErrorResponse'')"

definition either_id_or_list_id :: string where
  "either_id_or_list_id = ''Either `id` or `list_id` must be specified''"

definition DeleteExceptionList :: operation where
  "DeleteExceptionList =
     \<lparr>x_labels = [''serverless'', ''ess''],
      operationId = ''DeleteExceptionList'',
      x_codegen_enabled = True,
      summary = ''Deletes an exception list'',
      tags = [''Exceptions API''],
      parameters =
        [\<lparr>p_name = ''id'', p_in = ''query'', p_required = False,
          p_description = Some either_id_or_list_id,
          p_schema = Ref (common_schema ''ExceptionListId''), p_schema_default = None\<rparr>,
         \<lparr>p_name = ''list_id'', p_in = ''query'', p_required = False,
          p_description = Some either_id_or_list_id,
          p_schema = Ref (common_schema ''ExceptionListHumanId''), p_schema_default = None\<rparr>,
         \<lparr>p_name = ''namespace_type'', p_in = ''query'', p_required = False,
          p_description = None,
          p_schema = Ref (common_schema ''ExceptionNamespaceType''),
          p_schema_default = Some ''single''\<rparr>],
      responses =
        [\<lparr>r_status = 200, r_description = ''Successful response'',
          r_content = [(''application/json'', ExceptionList)]\<rparr>,
         \<lparr>r_status = 400, r_description = ''Invalid input data response'',
          r_content = [(''application/json'', OneOf [PlatformErrorResponse, SiemErrorResponse])]\<rparr>,
         \<lparr>r_status = 401, r_description = ''Unsuccessful authentication response'',
          r_content = [(''application/json'', PlatformErrorResponse)]\<rparr>,
         \<lparr>r_status = 403, r_description = ''Not enough privileges response'',
          r_content = [(''application/json'', PlatformErrorResponse)]\<rparr>,
         \<lparr>r_status = 404, r_description = ''Exception list not found response'',
          r_content = [(''application/json'', SiemErrorResponse)]\<rparr>,
         \<lparr>r_status = 500, r_description = ''Internal server error response'',
          r_content = [(''application/json'', SiemErrorResponse)]\<rparr>]\<rparr>"

text \<open>Looking a parameter up by name and a response up by status code.\<close>

definition parameter_named :: "operation \<Rightarrow> string \<Rightarrow> parameter option" where
  "parameter_named op n = find (\<lambda>p. p_name p = n) (parameters op)"

definition response_content :: "operation \<Rightarrow> nat \<Rightarrow> (string \<times> schema) list option" where
  "response_content op code =
     map_option r_content (find (\<lambda>r. r_status r = code) (responses op))"

section \<open>JavaScript numbers\<close>

text \<open>
  A JavaScript number is an IEEE 754 double: a real number on the grid of the doubles, one
  of the two infinities, or \<^verbatim>\<open>NaN\<close>. The two zeros are not told apart.
\<close>

datatype jsnumber = Num real | PosInfinity | NegInfinity | NaN

text \<open>Rounding to the nearest integer, a tie going to the even one.\<close>

definition round_half_even :: "real \<Rightarrow> int" where
  "round_half_even y =
     (let f = \<lfloor>y\<rfloor>; d = y - of_int f
      in if d < 1 / 2 then f else if 1 / 2 < d then f + 1 else if even f then f else f + 1)"

text \<open>
  The binary exponent of a positive number, the \<open>k\<close> with \<open>2 ^ k \<le> y < 2 ^ (k + 1)\<close>, found
  by halving a number from 1 on and doubling a number below 1. The counts stop at 1024
  and at 1022, where the range of the doubles ends: a number that large overflows, and
  below \<open>2\<close> to the \<open>- 1022\<close> the spacing of the doubles no longer shrinks.
\<close>

fun halvings :: "nat \<Rightarrow> real \<Rightarrow> nat" where
  "halvings 0 y = 0"
| "halvings (Suc n) y = (if y < 2 then 0 else Suc (halvings n (y / 2)))"

fun doublings :: "nat \<Rightarrow> real \<Rightarrow> nat" where
  "doublings 0 y = 0"
| "doublings (Suc n) y = (if 1 \<le> y then 0 else Suc (doublings n (2 * y)))"

definition binary_exponent :: "real \<Rightarrow> int" where
  "binary_exponent y = (if 1 \<le> y then int (halvings 1024 y) else - int (doublings 1022 y))"

text \<open>
  The doubles around \<open>x\<close> are the multiples of \<open>2\<close> to the power \<open>ulp_exponent x\<close>: 52
  binary places below the leading bit of \<open>x\<close>, and never below \<open>2\<close> to the \<open>- 1074\<close>, the
  spacing of the subnormal numbers.
\<close>

definition ulp_exponent :: "real \<Rightarrow> int" where
  "ulp_exponent x = max (binary_exponent \<bar>x\<bar> - 52) (- 1074)"

text \<open>
  The double nearest to a real number (ties to the even significand); a result of
  magnitude \<open>2 ^ 1024\<close> or more overflows to an infinity.
\<close>

definition round_double :: "real \<Rightarrow> jsnumber" where
  "round_double x =
     (if x = 0 then Num 0
      else let u = 2 powr of_int (ulp_exponent x);
               y = of_int (round_half_even (x / u)) * u
           in if 2 ^ 1024 \<le> \<bar>y\<bar> then (if 0 < x then PosInfinity else NegInfinity) else Num y)"

text \<open>JavaScript's \<^verbatim>\<open>+\<close> on two numbers: the exact sum, rounded once.\<close>

fun js_add :: "jsnumber \<Rightarrow> jsnumber \<Rightarrow> jsnumber" where
  "js_add NaN b = NaN"
| "js_add a NaN = NaN"
| "js_add PosInfinity NegInfinity = NaN"
| "js_add NegInfinity PosInfinity = NaN"
| "js_add PosInfinity b = PosInfinity"
| "js_add a PosInfinity = PosInfinity"
| "js_add NegInfinity b = NegInfinity"
| "js_add a NegInfinity = NegInfinity"
| "js_add (Num x) (Num y) = round_double (x + y)"

section \<open>The authorizations query\<close>

text \<open>
  The query \<^verbatim>\<open>buildQuery\<close> returns is a JSON value. An object is an association list in
  the order the keys are written; a number is a JavaScript number.
\<close>

datatype json =
    JNull
  | JBool bool
  | JNum jsnumber
  | JStr string
  | JArr "json list"
  | JObj "(string \<times> json) list"

text \<open>
  \<^verbatim>\<open>merge\<close> of \<^verbatim>\<open>lodash/fp\<close>, which returns a new value and leaves its arguments alone,
  as the library documents it: the keys of the source are merged into the destination one
  after the other; where both sides hold an object, or both an array, they are merged
  recursively (arrays index by index); any other source value is assigned; a key the
  destination lacks is added after its keys. The library's own treatment of the keys
  \<^verbatim>\<open>__proto__\<close> and \<^verbatim>\<open>constructor\<close> is left out, and a source object met by a
  destination array, which the library merges into the array, is given the source; neither
  arises for the one call below.
\<close>

fun merge_json :: "json \<Rightarrow> json \<Rightarrow> json"
  and merge_fields :: "(string \<times> json) list \<Rightarrow> (string \<times> json) list \<Rightarrow> (string \<times> json) list"
  and merge_items :: "json list \<Rightarrow> json list \<Rightarrow> json list" where
  "merge_json (JObj d) (JObj s) = JObj (merge_fields d s)"
| "merge_json (JArr d) (JArr s) = JArr (merge_items d s)"
| "merge_json d s = s"
| "merge_fields d [] = d"
| "merge_fields d ((k, v) # s) =
     merge_fields
       (case map_of d k of
          None \<Rightarrow> d @ [(k, v)]
        | Some dv \<Rightarrow> map (\<lambda>(k', v'). if k' = k then (k', merge_json dv v) else (k', v')) d)
       s"
| "merge_items d [] = d"
| "merge_items [] s = s"
| "merge_items (d # ds) (s # ss) = merge_json d s # merge_items ds ss"

text \<open>
  The request options, with the fields \<^verbatim>\<open>buildQuery\<close> reads. A cursor that is absent or
  \<^verbatim>\<open>null\<close> is \<open>None\<close>. The record is extensible: further fields of the request are its
  \<open>more\<close> part.
\<close>

record timerange =
  tr_to :: jsnumber
  tr_from :: jsnumber

record pagination =
  pg_limit :: jsnumber
  pg_cursor :: "string option"

record source_fields =
  timestamp :: string

record source_configuration =
  sc_fields :: source_fields
  auditbeatAlias :: string

record options =
  opt_timerange :: timerange
  opt_pagination :: pagination
  opt_fields :: "string list"
  filterQuery :: "json option"
  sourceConfiguration :: source_configuration

definition auditdMap :: "(string \<times> string) list" where
  "auditdMap =
     [(''latest'', ''@timestamp''),
      (''from'', ''source.ip''),
      (''to.id'', ''host.id''),
      (''to.name'', ''host.name'')]"

text \<open>
  JavaScript's truth test on a value that is a string, \<^verbatim>\<open>null\<close> or \<^verbatim>\<open>undefined\<close>: only a
  string that is not empty is truthy. \<^verbatim>\<open>if (cursor)\<close> below is this test, written as a
  case distinction.
\<close>

definition truthy :: "string option \<Rightarrow> bool" where
  "truthy v = (case v of None \<Rightarrow> False | Some s \<Rightarrow> s \<noteq> [])"

text \<open>
  \<^verbatim>\<open>buildQuery(options)\<close>. The two imported helpers \<^verbatim>\<open>createQueryFilterClauses\<close> and
  \<^verbatim>\<open>reduceFields\<close> are parameters.
\<close>

definition buildQuery ::
  "(json option \<Rightarrow> json list) \<Rightarrow> (string list \<Rightarrow> (string \<times> string) list \<Rightarrow> string list) \<Rightarrow>
   'a options_scheme \<Rightarrow> json" where
  "buildQuery createQueryFilterClauses reduceFields options =
     (let to = tr_to (opt_timerange options);
          from = tr_from (opt_timerange options);
          limit = pg_limit (opt_pagination options);
          cursor = pg_cursor (opt_pagination options);
          esFields = reduceFields (opt_fields options) auditdMap;
          filter =
            createQueryFilterClauses (filterQuery options) @
            [JObj [(''term'', JObj [(''event.category'', JStr ''user-login'')])],
             JObj [(''term'', JObj [(''process.exe'', JStr ''/usr/sbin/sshd'')])],
             JObj [(''terms'',
                    JObj [(''event.type'', JArr [JStr ''user_login'', JStr ''user_start''])])],
             JObj [(''range'',
                    JObj [(timestamp (sc_fields (sourceConfiguration options)),
                           JObj [(''gte'', JNum from), (''lte'', JNum to)])])]];
          agg =
            [(''user_count'', JObj [(''cardinality'', JObj [(''field'', JStr ''auditd.data.acct'')])])];
          dslQuery =
            JObj
              [(''allowNoIndices'', JBool True),
               (''index'', JStr (auditbeatAlias (sourceConfiguration options))),
               (''ignoreUnavailable'', JBool True),
               (''body'',
                JObj
                  [(''aggregations'',
                    JObj
                      (agg @
                       [(''group_by_users'',
                         JObj
                           [(''composite'',
                             JObj
                               [(''size'', JNum (js_add limit (Num 1))),
                                (''sources'',
                                 JArr
                                   [JObj
                                      [(''user_uid'',
                                        JObj [(''terms'',
                                               JObj [(''field'', JStr ''auditd.data.acct'')])])]])]),
                            (''aggs'',
                             JObj
                               [(''failures'',
                                 JObj [(''filter'',
                                        JObj [(''term'', JObj [(''auditd.result'', JStr ''fail'')])])]),
                                (''successes'',
                                 JObj [(''filter'',
                                        JObj [(''term'',
                                               JObj [(''auditd.result'', JStr ''success'')])])]),
                                (''authorization'',
                                 JObj
                                   [(''top_hits'',
                                     JObj
                                       [(''size'', JNum (Num 1)),
                                        (''_source'', JArr (map JStr esFields)),
                                        (''sort'',
                                         JArr
                                           [JObj [(''@timestamp'',
                                                   JObj [(''order'', JStr ''desc'')])]])])])])])])),
                   (''query'', JObj [(''bool'', JObj [(''filter'', JArr filter)])])]),
               (''size'', JNum (Num 0)),
               (''track_total_hits'', JBool False)]
      in case cursor of
           None \<Rightarrow> dslQuery
         | Some c \<Rightarrow>
             if c \<noteq> []
             then merge_json dslQuery
                    (JObj
                       [(''body'',
                         JObj
                           [(''aggregations'',
                             JObj
                               [(''group_by_users'',
                                 JObj
                                   [(''composite'',
                                     JObj [(''after'', JObj [(''user_uid'', JStr c)])])])])])])
             else dslQuery)"

text \<open>
  Reading and removing the value at a path of keys, to say where two queries differ. Both
  follow the first binding of a key.
\<close>

fun json_get :: "string list \<Rightarrow> json \<Rightarrow> json option" where
  "json_get [] j = Some j"
| "json_get (k # ks) (JObj fs) = (case map_of fs k of None \<Rightarrow> None | Some v \<Rightarrow> json_get ks v)"
| "json_get (k # ks) j = None"

fun json_remove :: "string list \<Rightarrow> json \<Rightarrow> json"
  and remove_in :: "string \<Rightarrow> string list \<Rightarrow> (string \<times> json) list \<Rightarrow> (string \<times> json) list" where
  "json_remove [] j = j"
| "json_remove (k # ks) (JObj fs) = JObj (remove_in k ks fs)"
| "json_remove (k # ks) j = j"
| "remove_in k ks [] = []"
| "remove_in k ks ((k', v) # fs) =
     (if k' = k then (if ks = [] then fs else (k', json_remove ks v) # fs)
      else (k', v) # remove_in k ks fs)"

definition after_path :: "string list" where
  "after_path = [''body'', ''aggregations'', ''group_by_users'', ''composite'', ''after'']"

definition size_path :: "string list" where
  "size_path = [''body'', ''aggregations'', ''group_by_users'', ''composite'', ''size'']"

definition filter_path :: "string list" where
  "filter_path = [''body'', ''query'', ''bool'', ''filter'']"

section \<open>Autocomplete suggestions\<close>

record command =
  cmd_title :: string
  cmd_id :: string

record SuggestionRawDefinition =
  sg_label :: string
  sg_text :: string
  sg_asSnippet :: "bool option"
  sg_kind :: string
  sg_detail :: string
  sg_documentation :: "string option"
  sg_sortText :: string
  sg_command :: "command option"

record signature =
  sig_params :: "string list"
  returnType :: string

record FunctionDefinition =
  fn_type :: string
  fn_name :: string
  fn_description :: string
  supportedCommands :: "string list"
  supportedOptions :: "string list option"
  signatures :: "signature list"
  examples :: "string list option"

record full_signature =
  fs_declaration :: string

datatype js_error = TypeError

definition TRIGGER_SUGGESTION_COMMAND :: command where
  "TRIGGER_SUGGESTION_COMMAND =
     \<lparr>cmd_title = ''Trigger Suggestion Dialog'', cmd_id = ''editor.action.triggerSuggest''\<rparr>"

text \<open>
  \<^verbatim>\<open>toUpperCase\<close> on the ASCII letters; other characters are left as they are (function
  names are ASCII identifiers).
\<close>

definition toUpperCase :: "string \<Rightarrow> string" where
  "toUpperCase s =
     map (\<lambda>c. case map_of (zip ''abcdefghijklmnopqrstuvwxyz'' ''ABCDEFGHIJKLMNOPQRSTUVWXYZ'') c of
                None \<Rightarrow> c
              | Some u \<Rightarrow> u) s"

text \<open>
  \<^verbatim>\<open>getSuggestionFunctionDefinition(fn)\<close>. The imported \<^verbatim>\<open>getFunctionSignatures\<close> (called
  with \<^verbatim>\<open>{ capitalize: true, withTypes: true }\<close>) and \<^verbatim>\<open>buildFunctionDocumentation\<close> are
  parameters. Reading \<^verbatim>\<open>fullSignatures[0].declaration\<close> throws a \<^verbatim>\<open>TypeError\<close> when the
  list of signatures is empty.
\<close>

definition getSuggestionFunctionDefinition ::
  "(FunctionDefinition \<Rightarrow> full_signature list) \<Rightarrow>
   (full_signature list \<Rightarrow> string list option \<Rightarrow> string) \<Rightarrow>
   FunctionDefinition \<Rightarrow> js_error + SuggestionRawDefinition" where
  "getSuggestionFunctionDefinition getFunctionSignatures buildFunctionDocumentation fn =
     (let fullSignatures = getFunctionSignatures fn
      in case fullSignatures of
           [] \<Rightarrow> Inl TypeError
         | s0 # _ \<Rightarrow>
             Inr \<lparr>sg_label = fs_declaration s0,
                  sg_text = toUpperCase (fn_name fn) @ ''($0)'',
                  sg_asSnippet = Some True,
                  sg_kind = ''Function'',
                  sg_detail = fn_description fn,
                  sg_documentation = Some (buildFunctionDocumentation fullSignatures (examples fn)),
                  sg_sortText = (if fn_type fn = ''agg'' then ''1A'' else ''C''),
                  sg_command = Some TRIGGER_SUGGESTION_COMMAND\<rparr>)"

text \<open>\<^verbatim>\<open>xs.map(f)\<close> for an \<open>f\<close> that may throw: the first exception ends the call.\<close>

fun mapE :: "('a \<Rightarrow> 'e + 'b) \<Rightarrow> 'a list \<Rightarrow> 'e + 'b list" where
  "mapE f [] = Inr []"
| "mapE f (x # xs) =
     (case f x of
        Inl e \<Rightarrow> Inl e
      | Inr y \<Rightarrow> (case mapE f xs of Inl e \<Rightarrow> Inl e | Inr ys \<Rightarrow> Inr (y # ys)))"

text \<open>
  \<^verbatim>\<open>xs.sort(cmp)\<close>: the sort of JavaScript is stable, so for a comparator that is a
  consistent ordering its result is the one of insertion sort. \<open>insort_by cmp x ys\<close> puts
  \<open>x\<close>, which stood before all of \<open>ys\<close>, in front of the first element it does not
  come after.
\<close>

fun insort_by :: "('a \<Rightarrow> 'a \<Rightarrow> int) \<Rightarrow> 'a \<Rightarrow> 'a list \<Rightarrow> 'a list" where
  "insort_by cmp x [] = [x]"
| "insort_by cmp x (y # ys) = (if cmp x y \<le> 0 then x # y # ys else y # insort_by cmp x ys)"

fun sort_by :: "('a \<Rightarrow> 'a \<Rightarrow> int) \<Rightarrow> 'a list \<Rightarrow> 'a list" where
  "sort_by cmp [] = []"
| "sort_by cmp (x # xs) = insort_by cmp x (sort_by cmp xs)"

text \<open>
  \<^verbatim>\<open>getCompatibleFunctionDefinition(command, option, returnTypes, ignored)\<close>. The table
  \<^verbatim>\<open>allFunctions\<close> (the concatenation of three imported tables) and the built-in
  \<^verbatim>\<open>localeCompare\<close> are parameters. \<open>option\<close> and \<open>returnTypes\<close> are \<open>None\<close> when
  \<^verbatim>\<open>undefined\<close>; the test \<^verbatim>\<open>option ? ... : ...\<close> is JavaScript's truth test, which the empty
  string fails, while \<^verbatim>\<open>!returnTypes\<close> holds for no array, not even the empty one.
  \<^verbatim>\<open>supportedOptions?.includes(option)\<close> is \<^verbatim>\<open>undefined\<close>, hence false, for a function
  without supported options; \<^verbatim>\<open>returnTypes[0] === 'any'\<close> is false for the empty array.
\<close>

definition fnSupportedByCommand ::
  "FunctionDefinition list \<Rightarrow> (string \<Rightarrow> string \<Rightarrow> int) \<Rightarrow> string \<Rightarrow> string option \<Rightarrow> string list \<Rightarrow>
   FunctionDefinition list" where
  "fnSupportedByCommand allFunctions localeCompare command' option' ignored =
     sort_by (\<lambda>a b. localeCompare (fn_name a) (fn_name b))
       (filter
          (\<lambda>f. (case option' of
                   None \<Rightarrow> command' \<in> set (supportedCommands f)
                 | Some opt \<Rightarrow>
                     if opt \<noteq> []
                     then (case supportedOptions f of None \<Rightarrow> False | Some os \<Rightarrow> opt \<in> set os)
                     else command' \<in> set (supportedCommands f)) \<and>
                fn_name f \<notin> set ignored)
          allFunctions)"

definition getCompatibleFunctionDefinition ::
  "FunctionDefinition list \<Rightarrow> (string \<Rightarrow> string \<Rightarrow> int) \<Rightarrow>
   (FunctionDefinition \<Rightarrow> full_signature list) \<Rightarrow>
   (full_signature list \<Rightarrow> string list option \<Rightarrow> string) \<Rightarrow>
   string \<Rightarrow> string option \<Rightarrow> string list option \<Rightarrow> string list \<Rightarrow>
   js_error + SuggestionRawDefinition list" where
  "getCompatibleFunctionDefinition allFunctions localeCompare getFunctionSignatures
       buildFunctionDocumentation command' option' returnTypes ignored =
     (case returnTypes of
        None \<Rightarrow>
          mapE (getSuggestionFunctionDefinition getFunctionSignatures buildFunctionDocumentation)
            (fnSupportedByCommand allFunctions localeCompare command' option' ignored)
      | Some rts \<Rightarrow>
          mapE (getSuggestionFunctionDefinition getFunctionSignatures buildFunctionDocumentation)
            (filter
               (\<lambda>mathDefinition.
                  list_ex
                    (\<lambda>signature. (case rts of [] \<Rightarrow> False | r # _ \<Rightarrow> r = ''any'') \<or>
                                 returnType signature \<in> set rts)
                    (signatures mathDefinition))
               (fnSupportedByCommand allFunctions localeCompare command' option' ignored)))"

section \<open>Example data\<close>

text \<open>
  Concrete values for the parameters above, used where a statement is evaluated at an
  explicit input: a request, two entries of a table of functions, stand-ins for the
  imported helpers, and a comparator (the order of the character codes).
\<close>

definition example_options :: options where
  "example_options =
     \<lparr>opt_timerange = \<lparr>tr_to = Num 1546300800000, tr_from = Num 1514764800000\<rparr>,
      opt_pagination = \<lparr>pg_limit = Num 10, pg_cursor = Some ''root''\<rparr>,
      opt_fields = [''latest'', ''from''],
      filterQuery = None,
      sourceConfiguration =
        \<lparr>sc_fields = \<lparr>timestamp = ''@timestamp''\<rparr>, auditbeatAlias = ''auditbeat-*''\<rparr>\<rparr>"

definition example_createQueryFilterClauses :: "json option \<Rightarrow> json list" where
  "example_createQueryFilterClauses q = (case q of None \<Rightarrow> [] | Some j \<Rightarrow> [j])"

definition example_reduceFields :: "string list \<Rightarrow> (string \<times> string) list \<Rightarrow> string list" where
  "example_reduceFields fs m = concat (map (\<lambda>f. case map_of m f of None \<Rightarrow> [] | Some v \<Rightarrow> [v]) fs)"

definition example_abs :: FunctionDefinition where
  "example_abs =
     \<lparr>fn_type = ''eval'', fn_name = ''abs'', fn_description = ''Returns the absolute value.'',
      supportedCommands = [''stats'', ''eval'', ''where'', ''row'', ''sort''],
      supportedOptions = Some [''by''],
      signatures = [\<lparr>sig_params = [''number''], returnType = ''number''\<rparr>],
      examples = None\<rparr>"

definition example_avg :: FunctionDefinition where
  "example_avg =
     \<lparr>fn_type = ''agg'', fn_name = ''avg'', fn_description = ''Returns the average of the values.'',
      supportedCommands = [''stats''],
      supportedOptions = None,
      signatures = [\<lparr>sig_params = [''number''], returnType = ''number''\<rparr>],
      examples = None\<rparr>"

definition example_getFunctionSignatures :: "FunctionDefinition \<Rightarrow> full_signature list" where
  "example_getFunctionSignatures fn =
     map (\<lambda>sg. \<lparr>fs_declaration = toUpperCase (fn_name fn) @ '': '' @ returnType sg\<rparr>) (signatures fn)"

definition example_buildFunctionDocumentation ::
  "full_signature list \<Rightarrow> string list option \<Rightarrow> string" where
  "example_buildFunctionDocumentation sigs ex = concat (map fs_declaration sigs)"

fun example_localeCompare :: "string \<Rightarrow> string \<Rightarrow> int" where
  "example_localeCompare [] [] = 0"
| "example_localeCompare [] (y # ys) = - 1"
| "example_localeCompare (x # xs) [] = 1"
| "example_localeCompare (x # xs) (y # ys) =
     (if (of_char x :: nat) < of_char y then - 1
      else if (of_char y :: nat) < of_char x then 1
      else example_localeCompare xs ys)"

section \<open>Properties of the string helpers\<close>

lemma getQuotedText_quoted:
  "startsWith (getQuotedText t) [dquote] \<and> endsWith (getQuotedText t) [dquote]"
  by (simp add: getQuotedText_def startsWith_def endsWith_def)

lemma getQuotedText_nonempty: "getQuotedText t \<noteq> []"
  by (auto simp: getQuotedText_def startsWith_def)

lemma getQuotedText_hd: "hd (getQuotedText t) = dquote"
  by (cases t) (auto simp: getQuotedText_def startsWith_def endsWith_def)

lemma getQuotedText_last: "last (getQuotedText t) = dquote"
proof (cases "startsWith t [dquote] \<and> endsWith t [dquote]")
  case True
  then have len: "1 \<le> length t" and d: "drop (length t - 1) t = [dquote]"
    by (simp_all add: endsWith_def)
  from len have "t \<noteq> []" by auto
  then have "t = butlast t @ [last t]" by simp
  then have "drop (length t - 1) t = [last t]"
    by (metis append_eq_conv_conj length_butlast)
  with d have "last t = dquote" by simp
  with True show ?thesis by (simp add: getQuotedText_def)
next
  case False
  then show ?thesis by (auto simp: getQuotedText_def)
qed

text \<open>
  C10. \<^verbatim>\<open>getQuotedText\<close> is idempotent, and for every non-empty input its result starts
  and ends with a double-quote character.
\<close>

theorem getQuotedText_idempotent:
  "getQuotedText (getQuotedText t) = getQuotedText t \<and>
   (t \<noteq> [] \<longrightarrow>
      startsWith (getQuotedText t) [dquote] \<and> endsWith (getQuotedText t) [dquote] \<and>
      hd (getQuotedText t) = dquote \<and> last (getQuotedText t) = dquote)"
proof -
  have "getQuotedText (getQuotedText t) = getQuotedText t"
    using getQuotedText_quoted [of t] by (simp add: getQuotedText_def [of "getQuotedText t"])
  then show ?thesis
    using getQuotedText_quoted [of t] getQuotedText_hd [of t] getQuotedText_last [of t]
    by simp
qed

theorem getQuotedText_idempotent_witness:
  "getQuotedText (getQuotedText ''logs-*'') = getQuotedText ''logs-*'' \<and>
   ''logs-*'' \<noteq> [] \<and>
   startsWith (getQuotedText ''logs-*'') [dquote] \<and>
   endsWith (getQuotedText ''logs-*'') [dquote] \<and>
   hd (getQuotedText ''logs-*'') = dquote \<and> last (getQuotedText ''logs-*'') = dquote"
proof -
  have h: "''logs-*'' \<noteq> []" by simp
  from getQuotedText_idempotent [of "''logs-*''"] h show ?thesis by blast
qed

section \<open>Properties of the duration schema\<close>

lemma unit_not_digit: "c \<in> set validation_class \<Longrightarrow> \<not> is_digit c"
  by (auto simp: validation_class_def is_digit_def)

lemma validation_match_class: "set validation_class = set match_class"
  by (auto simp: validation_class_def match_class_def)

lemma try_test_split:
  "try_test s k \<Longrightarrow> \<exists>j c. 0 < j \<and> j \<le> k \<and> drop j s = [c] \<and> c \<in> set validation_class"
proof (induction k)
  case 0
  then show ?case by simp
next
  case (Suc k)
  show ?case
  proof (cases "try_test s k")
    case True
    with Suc.IH obtain j c where "0 < j" "j \<le> k" "drop j s = [c]" "c \<in> set validation_class"
      by blast
    then show ?thesis by (intro exI [of _ j] exI [of _ c]) simp
  next
    case False
    with Suc.prems obtain c where "drop (Suc k) s = [c]" "c \<in> set validation_class"
      by (auto split: list.splits)
    then show ?thesis by (intro exI [of _ "Suc k"] exI [of _ c]) simp
  qed
qed

text \<open>What the validation regex accepts: one or more digits, then one character of the class.\<close>

lemma regex_test_shape:
  assumes "regex_test s"
  shows "\<exists>ds c. s = ds @ [c] \<and> ds \<noteq> [] \<and> (\<forall>d \<in> set ds. is_digit d) \<and> c \<in> set validation_class"
proof -
  let ?n = "length (takeWhile is_digit s)"
  from assms obtain j c where j: "0 < j" "j \<le> ?n" and d: "drop j s = [c]"
    and c: "c \<in> set validation_class"
    using try_test_split [of s ?n] by (auto simp: regex_test_def)
  have s: "s = take j s @ [c]" using d by (metis append_take_drop_id)
  have "take j s = take j (takeWhile is_digit s)"
    using j(2)
    by (metis takeWhile_dropWhile_id take_append diff_is_0_eq' take_0 append_Nil2)
  then have "\<forall>d \<in> set (take j s). is_digit d"
    by (metis in_set_takeD set_takeWhileD)
  moreover have "take j s \<noteq> []" using j(1) d by (cases s) auto
  ultimately show ?thesis using s c by blast
qed

lemma try_match_full:
  assumes "\<forall>d \<in> set ds. is_digit d" "ds \<noteq> []" "c \<in> set match_class"
  shows "try_match (ds @ [c]) (length ds) = Some (ds, c)"
  using assms by (cases "length ds") auto

lemma regex_match_shape:
  assumes "\<forall>d \<in> set ds. is_digit d" "ds \<noteq> []" "c \<in> set validation_class"
  shows "regex_match (ds @ [c]) = Some (ds, c)"
proof -
  from assms(2) obtain x xs where ds: "ds = x # xs" by (cases ds) auto
  have tw: "takeWhile is_digit (ds @ [c]) = ds"
    using assms(1,3) by (simp add: unit_not_digit)
  have "try_match (ds @ [c]) (length ds) = Some (ds, c)"
    using assms validation_match_class by (simp add: try_match_full)
  with tw have "try_match ((x # xs) @ [c]) (length (takeWhile is_digit ((x # xs) @ [c]))) = Some (ds, c)"
    by (simp add: ds)
  then show ?thesis unfolding ds by simp
qed

lemma regex_test_match:
  assumes "regex_test s"
  shows "\<exists>ds c. s = ds @ [c] \<and> regex_match s = Some (ds, c)"
proof -
  from regex_test_shape [OF assms] obtain ds c where
    "s = ds @ [c]" "ds \<noteq> []" "\<forall>d \<in> set ds. is_digit d" "c \<in> set validation_class"
    by blast
  then show ?thesis using regex_match_shape [of ds c] by blast
qed

lemma durationSchema_accepts:
  "durationSchema s = Inr d \<Longrightarrow> regex_test s"
  by (auto simp: durationSchema_def split: if_splits)

text \<open>
  C3. For every string that passes the validation regex, the second match inside the
  transform is not null, the transform does not throw \<^verbatim>\<open>Unable to parse duration\<close>, and
  the schema returns a duration.
\<close>

theorem durationSchema_match_total:
  assumes "regex_test s"
  shows "regex_match s \<noteq> None \<and> durationSchema s \<noteq> Inl UnableToParseDuration \<and>
         (\<exists>d. durationSchema s = Inr d)"
proof -
  from regex_test_match [OF assms] obtain ds c where m: "regex_match s = Some (ds, c)"
    by blast
  with assms show ?thesis by (simp add: durationSchema_def)
qed

theorem durationSchema_match_total_witness:
  "regex_test ''15m'' \<and> regex_match ''15m'' \<noteq> None \<and>
   durationSchema ''15m'' \<noteq> Inl UnableToParseDuration \<and> (\<exists>d. durationSchema ''15m'' = Inr d)"
proof -
  have h: "regex_test ''15m''"
    by (simp add: regex_test_def is_digit_def validation_class_def)
  from durationSchema_match_total [OF h] h show ?thesis by blast
qed

text \<open>
  C8. For every string the duration schema accepts, the \<^verbatim>\<open>toJSON\<close> of the parsed duration
  returns the input string unchanged.
\<close>

theorem durationSchema_toJSON_roundtrip:
  assumes "durationSchema s = Inr d"
  shows "toJSON d = s"
  using assms by (auto simp: durationSchema_def split: if_splits option.splits)

theorem durationSchema_toJSON_roundtrip_witness:
  "durationSchema ''90s'' =
     Inr \<lparr>duration_value = 90, duration_unit = CHR ''s'', toJSON = ''90s''\<rparr> \<and>
   toJSON \<lparr>duration_value = 90, duration_unit = CHR ''s'', toJSON = ''90s''\<rparr> = ''90s''"
proof -
  have h: "durationSchema ''90s'' =
     Inr \<lparr>duration_value = 90, duration_unit = CHR ''s'', toJSON = ''90s''\<rparr>"
    by (simp add: durationSchema_def regex_test_def is_digit_def validation_class_def
        match_class_def parseInt10_def digit_val_def)
  from durationSchema_toJSON_roundtrip [OF h] h show ?thesis by blast
qed

section \<open>Properties of the metadata schema\<close>

lemma superRefine_empty:
  "superRefine v = [] \<longleftrightarrow> 1 \<le> md_limit v \<and> md_source v \<noteq> [] \<and> md_destination v \<noteq> []"
  by (auto simp: superRefine_def)

lemma metadataSchema_Inr:
  "metadataSchema i = Inr v \<longleftrightarrow>
     unionSchema i = Some v \<and> 1 \<le> md_limit v \<and> md_source v \<noteq> [] \<and> md_destination v \<noteq> []"
  using superRefine_empty [of v]
  by (auto simp: metadataSchema_def split: option.splits list.splits)

lemma objectBranch_Some:
  "objectBranch src dst lmt = Some v \<longleftrightarrow>
     (\<exists>s d l. src = JString s \<and> (dst = JUndefined \<and> d = s \<or> dst = JString d) \<and>
        (lmt = JUndefined \<and> l = 1000 \<or> lmt = JNumber l) \<and>
        v = \<lparr>md_source = s, md_destination = d, md_limit = l\<rparr>)"
  by (cases src; cases dst; cases lmt)
     (auto simp: objectBranch_def zString_def zOptionalString_def zOptionalNumber_def)

text \<open>
  C4. An object input is accepted exactly when its source is a string, its destination and
  limit are absent or of the right type, and after the defaults (destination: the source,
  limit: 1000) the limit is at least 1 and source and destination are not empty; the
  accepted value is the resolved object. A limit of exactly 1 is accepted, and a limit
  below 1 is refused with the message \<^verbatim>\<open>limit should be greater than 1\<close>. A bare string
  \<open>t\<close> becomes the object with source \<open>t\<close>, destination \<open>t\<close> and limit 1000, which is
  returned when \<open>t\<close> is not empty, and the string is rejected exactly when it is empty.
\<close>

theorem metadataSchema_accepts:
  "(metadataSchema (ObjectInput src dst lmt) = Inr v \<longleftrightarrow>
      (\<exists>s d l. src = JString s \<and> (dst = JUndefined \<and> d = s \<or> dst = JString d) \<and>
         (lmt = JUndefined \<and> l = 1000 \<or> lmt = JNumber l) \<and>
         v = \<lparr>md_source = s, md_destination = d, md_limit = l\<rparr> \<and>
         1 \<le> l \<and> s \<noteq> [] \<and> d \<noteq> [])) \<and>
   (metadataSchema (ObjectInput (JString s') (JString d') (JNumber 1)) =
      Inr \<lparr>md_source = s', md_destination = d', md_limit = 1\<rparr> \<longleftrightarrow> s' \<noteq> [] \<and> d' \<noteq> []) \<and>
   (s' \<noteq> [] \<and> d' \<noteq> [] \<longrightarrow>
      metadataSchema (ObjectInput (JString s') (JString d') (JNumber (1 / 2))) =
        Inl [Custom [''limit''] ''limit should be greater than 1'']) \<and>
   unionSchema (StringInput t) = Some \<lparr>md_source = t, md_destination = t, md_limit = 1000\<rparr> \<and>
   (t \<noteq> [] \<longrightarrow>
      metadataSchema (StringInput t) = Inr \<lparr>md_source = t, md_destination = t, md_limit = 1000\<rparr>) \<and>
   ((\<exists>is. metadataSchema (StringInput t) = Inl is) \<longleftrightarrow> t = [])"
proof -
  have a: "metadataSchema (ObjectInput src dst lmt) = Inr v \<longleftrightarrow>
      (\<exists>s d l. src = JString s \<and> (dst = JUndefined \<and> d = s \<or> dst = JString d) \<and>
         (lmt = JUndefined \<and> l = 1000 \<or> lmt = JNumber l) \<and>
         v = \<lparr>md_source = s, md_destination = d, md_limit = l\<rparr> \<and>
         1 \<le> l \<and> s \<noteq> [] \<and> d \<noteq> [])"
    unfolding metadataSchema_Inr by (auto simp: unionSchema_def objectBranch_Some)
  have b: "metadataSchema (ObjectInput (JString s') (JString d') (JNumber 1)) =
      Inr \<lparr>md_source = s', md_destination = d', md_limit = 1\<rparr> \<longleftrightarrow> s' \<noteq> [] \<and> d' \<noteq> []"
    unfolding metadataSchema_Inr by (auto simp: unionSchema_def objectBranch_Some)
  have b': "s' \<noteq> [] \<and> d' \<noteq> [] \<longrightarrow>
      metadataSchema (ObjectInput (JString s') (JString d') (JNumber (1 / 2))) =
        Inl [Custom [''limit''] ''limit should be greater than 1'']"
    by (simp add: metadataSchema_def unionSchema_def objectBranch_def zString_def
        zOptionalString_def zOptionalNumber_def superRefine_def)
  have c: "unionSchema (StringInput t) = Some \<lparr>md_source = t, md_destination = t, md_limit = 1000\<rparr>"
    by (simp add: unionSchema_def stringBranch_def)
  have d: "t \<noteq> [] \<longrightarrow>
      metadataSchema (StringInput t) = Inr \<lparr>md_source = t, md_destination = t, md_limit = 1000\<rparr>"
    unfolding metadataSchema_Inr by (simp add: c)
  have e: "(\<exists>is. metadataSchema (StringInput t) = Inl is) \<longleftrightarrow> t = []"
    by (auto simp: metadataSchema_def c superRefine_def split: list.splits)
  from a b b' c d e show ?thesis by blast
qed

theorem metadataSchema_accepts_witness:
  "''logs-*'' \<noteq> [] \<and>
   metadataSchema (StringInput ''logs-*'') =
     Inr \<lparr>md_source = ''logs-*'', md_destination = ''logs-*'', md_limit = 1000\<rparr> \<and>
   ''host.name'' \<noteq> [] \<and> ''host'' \<noteq> [] \<and>
   metadataSchema (ObjectInput (JString ''host.name'') (JString ''host'') (JNumber 1)) =
     Inr \<lparr>md_source = ''host.name'', md_destination = ''host'', md_limit = 1\<rparr> \<and>
   metadataSchema (ObjectInput (JString ''host.name'') (JString ''host'') (JNumber (1 / 2))) =
     Inl [Custom [''limit''] ''limit should be greater than 1'']"
proof -
  have h: "''logs-*'' \<noteq> []" and h': "''host.name'' \<noteq> [] \<and> ''host'' \<noteq> []" by simp_all
  from metadataSchema_accepts [where t = "''logs-*''" and s' = "''host.name''" and d' = "''host''"] h h'
  show ?thesis by blast
qed

section \<open>Properties of the Delete exception list contract\<close>

text \<open>
  C1. The contract declares the three query parameters \<^verbatim>\<open>id\<close>, \<^verbatim>\<open>list_id\<close> and
  \<^verbatim>\<open>namespace_type\<close>, each with \<^verbatim>\<open>required: false\<close>; the descriptions of \<^verbatim>\<open>id\<close> and
  \<^verbatim>\<open>list_id\<close> both say that either of them must be specified; \<^verbatim>\<open>namespace_type\<close> has
  the default \<^verbatim>\<open>single\<close>.
\<close>

theorem DeleteExceptionList_parameters:
  "map p_name (parameters DeleteExceptionList) = [''id'', ''list_id'', ''namespace_type''] \<and>
   map p_in (parameters DeleteExceptionList) = [''query'', ''query'', ''query''] \<and>
   map p_required (parameters DeleteExceptionList) = [False, False, False] \<and>
   map_option p_description (parameter_named DeleteExceptionList ''id'') =
     Some (Some ''Either `id` or `list_id` must be specified'') \<and>
   map_option p_description (parameter_named DeleteExceptionList ''list_id'') =
     Some (Some ''Either `id` or `list_id` must be specified'') \<and>
   map_option p_schema_default (parameter_named DeleteExceptionList ''namespace_type'') =
     Some (Some ''single'')"
  by (simp add: DeleteExceptionList_def parameter_named_def either_id_or_list_id_def)

text \<open>
  C2. The contract declares exactly the status codes 200, 400, 401, 403, 404 and 500; 200
  returns an \<^verbatim>\<open>ExceptionList\<close> body as JSON, and each of the other five returns, as JSON,
  the platform error response, the SIEM error response, or (for 400) one of the two.
\<close>

theorem DeleteExceptionList_responses:
  "map r_status (responses DeleteExceptionList) = [200, 400, 401, 403, 404, 500] \<and>
   response_content DeleteExceptionList 200 = Some [(''application/json'', ExceptionList)] \<and>
   response_content DeleteExceptionList 400 =
     Some [(''application/json'', OneOf [PlatformErrorResponse, SiemErrorResponse])] \<and>
   response_content DeleteExceptionList 401 = Some [(''application/json'', PlatformErrorResponse)] \<and>
   response_content DeleteExceptionList 403 = Some [(''application/json'', PlatformErrorResponse)] \<and>
   response_content DeleteExceptionList 404 = Some [(''application/json'', SiemErrorResponse)] \<and>
   response_content DeleteExceptionList 500 = Some [(''application/json'', SiemErrorResponse)]"
  by (simp add: DeleteExceptionList_def response_content_def)

section \<open>Properties of the authorizations query\<close>

subsection \<open>Adding one to a number\<close>

lemma halvings_eq:
  "2 ^ k \<le> y \<Longrightarrow> y < 2 ^ Suc k \<Longrightarrow> k \<le> n \<Longrightarrow> halvings n y = k"
proof (induction n arbitrary: y k)
  case 0
  then show ?case by simp
next
  case (Suc n)
  show ?case
  proof (cases k)
    case 0
    with Suc.prems show ?thesis by simp
  next
    case (Suc j)
    have "(2::real) \<le> 2 ^ k" unfolding Suc by (simp add: self_le_power)
    with Suc.prems(1) have "2 \<le> y" by linarith
    moreover have "halvings n (y / 2) = j"
      using Suc.prems Suc by (intro Suc.IH) auto
    ultimately show ?thesis using Suc by simp
  qed
qed

lemma halvings_le: "y < 2 ^ Suc k \<Longrightarrow> halvings n y \<le> k"
proof (induction n arbitrary: y k)
  case 0
  then show ?case by simp
next
  case (Suc n)
  show ?case
  proof (cases "y < 2")
    case True
    then show ?thesis by simp
  next
    case False
    with Suc.prems obtain j where k: "k = Suc j" by (cases k) auto
    with Suc.prems have "y / 2 < 2 ^ Suc j" by simp
    from Suc.IH [OF this] False k show ?thesis by simp
  qed
qed

lemma doublings_eq:
  "1 \<le> y * 2 ^ k \<Longrightarrow> y * 2 ^ k < 2 \<Longrightarrow> 0 < y \<Longrightarrow> k \<le> n \<Longrightarrow> doublings n y = k"
proof (induction n arbitrary: y k)
  case 0
  then show ?case by simp
next
  case (Suc n)
  show ?case
  proof (cases k)
    case 0
    with Suc.prems show ?thesis by simp
  next
    case (Suc j)
    have "(2::real) \<le> 2 ^ k" unfolding Suc by (simp add: self_le_power)
    with Suc.prems(3) have "y * 2 \<le> y * 2 ^ k" by (intro mult_left_mono) auto
    with Suc.prems(2) have "y < 1" by linarith
    moreover have "doublings n (2 * y) = j"
      using Suc.prems Suc by (intro Suc.IH) (auto simp: mult.assoc mult.commute mult.left_commute)
    ultimately show ?thesis using Suc by simp
  qed
qed

text \<open>In the range of the normal doubles the binary exponent is the floor of the logarithm.\<close>

lemma binary_exponent_log:
  assumes "2 powr (- 1022) \<le> y" and "y < 2 ^ 1024"
  shows "binary_exponent y = \<lfloor>log 2 y\<rfloor>"
proof -
  have "(0::real) < 2 powr (- 1022)" by simp
  with assms(1) have pos: "0 < y" by linarith
  define k where "k = \<lfloor>log 2 y\<rfloor>"
  have kb: "2 powr of_int k \<le> y \<and> y < 2 powr of_int (k + 1)"
    using floor_log_eq_powr_iff [of y 2 k] pos by (simp add: k_def)
  show ?thesis
  proof (cases "1 \<le> y")
    case True
    then have "0 \<le> log 2 y" by simp
    then have "0 \<le> k" by (simp add: k_def)
    define j where "j = nat k"
    have j: "k = int j" using \<open>0 \<le> k\<close> by (simp add: j_def)
    have p: "2 powr of_int k = (2::real) ^ j" by (simp add: j powr_realpow)
    have p': "2 powr of_int (k + 1) = (2::real) ^ Suc j" by (simp add: j powr_add powr_realpow)
    from kb have a: "2 ^ j \<le> y" and b: "y < 2 ^ Suc j" unfolding p p' by simp_all
    have "j \<le> 1024"
    proof (rule ccontr)
      assume "\<not> j \<le> 1024"
      then have "(2::real) ^ 1024 \<le> 2 ^ j" by (intro power_increasing) auto
      with a assms(2) show False by linarith
    qed
    from halvings_eq [OF a b this] True show ?thesis by (simp add: binary_exponent_def j flip: k_def)
  next
    case False
    then have "log 2 y < 0" using pos by simp
    then have "k < 0" by (simp add: k_def floor_less_iff)
    define j where "j = nat (- k)"
    have j: "k = - int j" using \<open>k < 0\<close> by (simp add: j_def)
    have p: "2 powr of_int k = inverse (2 ^ j :: real)"
      by (simp add: j powr_minus powr_realpow)
    have "2 powr of_int (k + 1) = 2 powr of_int k * (2::real) powr 1"
      using powr_add [of "2::real" "of_int k" 1] by simp
    then have p': "2 powr of_int (k + 1) = 2 * inverse (2 ^ j :: real)"
      by (simp add: p)
    from kb have a: "1 \<le> y * 2 ^ j" and b: "y * 2 ^ j < 2"
      unfolding p p' by (simp_all add: field_simps)
    have "j \<le> 1022"
    proof (rule ccontr)
      assume "\<not> j \<le> 1022"
      then have "k + 1 \<le> - 1022" using j by simp
      then have "2 powr of_int (k + 1) \<le> (2::real) powr (- 1022)"
        by (subst powr_le_cancel_iff) auto
      with kb assms(1) show False by linarith
    qed
    from doublings_eq [OF a b pos this] False show ?thesis
      by (simp add: binary_exponent_def j flip: k_def)
  qed
qed

lemma doublings_full: "0 < y \<Longrightarrow> y * 2 ^ n < 1 \<Longrightarrow> doublings n y = n"
proof (induction n arbitrary: y)
  case 0
  then show ?case by simp
next
  case (Suc n)
  have "(1::real) \<le> 2 ^ Suc n" by (rule one_le_power) simp
  with Suc.prems(1) have "y * 1 \<le> y * 2 ^ Suc n" by (intro mult_left_mono) auto
  with Suc.prems(2) have "y < 1" by linarith
  moreover have "doublings n (2 * y) = n"
    using Suc.prems by (intro Suc.IH) (auto simp: mult.assoc mult.commute mult.left_commute)
  ultimately show ?case by simp
qed

text \<open>
  The spacing of the doubles around a normal number and around a subnormal one.
\<close>

lemma ulp_exponent_normal:
  assumes "2 powr (- 1022) \<le> \<bar>x\<bar>" and "\<bar>x\<bar> < 2 ^ 1024"
  shows "ulp_exponent x = \<lfloor>log 2 \<bar>x\<bar>\<rfloor> - 52"
proof -
  define k where "k = \<lfloor>log 2 \<bar>x\<bar>\<rfloor>"
  have "(0::real) < 2 powr (- 1022)" by simp
  with assms(1) have "0 < \<bar>x\<bar>" by linarith
  with assms(1) have "- 1022 \<le> log 2 \<bar>x\<bar>" by (subst le_log_iff) auto
  then have "- 1022 \<le> k" unfolding k_def by (simp add: le_floor_iff)
  then have "max (k - 52) (- 1074) = k - 52" by simp
  then show ?thesis
    by (simp only: ulp_exponent_def binary_exponent_log [OF assms] flip: k_def)
qed

lemma ulp_exponent_subnormal:
  assumes "x \<noteq> 0" and "\<bar>x\<bar> < 2 powr (- 1022)"
  shows "ulp_exponent x = - 1074"
proof -
  have p: "(2::real) powr (- 1022) = inverse (2 ^ 1022)"
    using powr_minus [of "2::real" 1022] by simp
  have "(2::real) powr (- 1022) \<le> 1" unfolding p by (simp add: field_simps)
  with assms(2) have lt: "\<not> 1 \<le> \<bar>x\<bar>" by linarith
  from assms(2) have "\<bar>x\<bar> * 2 ^ 1022 < 1" unfolding p by (simp add: field_simps)
  with assms(1) have "doublings 1022 \<bar>x\<bar> = 1022" by (intro doublings_full) auto
  with lt show ?thesis by (simp add: ulp_exponent_def binary_exponent_def)
qed

lemma round_half_even_int: "round_half_even (of_int z) = z"
  by (simp add: round_half_even_def)

lemma round_double_grid:
  assumes "x \<noteq> 0" and "x / 2 powr of_int (ulp_exponent x) = of_int z" and "\<bar>x\<bar> < 2 ^ 1024"
  shows "round_double x = Num x"
proof -
  let ?u = "2 powr of_int (ulp_exponent x) :: real"
  have u: "?u > 0" by simp
  from assms(2) have x: "of_int z * ?u = x" using u by (simp add: field_simps)
  show ?thesis
    using assms(1,3) by (simp add: round_double_def Let_def assms(2) round_half_even_int x)
qed

lemma ulp_exponent_bounds:
  assumes "1 \<le> \<bar>x\<bar>" "\<bar>x\<bar> < 2 ^ 53"
  shows "- 52 \<le> ulp_exponent x \<and> ulp_exponent x \<le> 0"
proof -
  from assms(2) have "\<bar>x\<bar> < 2 ^ Suc 52" by simp
  then have "halvings 1024 \<bar>x\<bar> \<le> 52" by (rule halvings_le)
  with assms(1) show ?thesis by (simp add: ulp_exponent_def binary_exponent_def)
qed

lemma ulp_exponent_2_53:
  assumes "2 ^ 53 \<le> \<bar>x\<bar>" "\<bar>x\<bar> < 2 ^ 54"
  shows "ulp_exponent x = 1"
proof -
  from assms(2) have "\<bar>x\<bar> < 2 ^ Suc 53" by simp
  with assms(1) have "halvings 1024 \<bar>x\<bar> = 53" by (intro halvings_eq) auto
  moreover have "1 \<le> \<bar>x\<bar>"
  proof -
    have "(1::real) \<le> 2 ^ 53" by (rule one_le_power) simp
    with assms(1) show ?thesis by linarith
  qed
  ultimately show ?thesis by (simp add: ulp_exponent_def binary_exponent_def)
qed

lemma round_double_int:
  assumes "x \<in> \<int>" and "\<bar>x\<bar> \<le> 2 ^ 53"
  shows "round_double x = Num x"
proof (cases "x = 0")
  case True
  then show ?thesis by (simp add: round_double_def)
next
  case False
  from assms(1) obtain n :: int where n: "x = of_int n" by (auto elim: Ints_cases)
  with False have "1 \<le> \<bar>n\<bar>" by auto
  then have one: "1 \<le> \<bar>x\<bar>" using n by (metis of_int_1_le_iff of_int_abs)
  have big: "\<bar>x\<bar> < 2 ^ 1024"
  proof -
    have "(2::real) ^ 53 < 2 ^ 1024" by (rule power_strict_increasing) auto
    with assms(2) show ?thesis by linarith
  qed
  show ?thesis
  proof (cases "\<bar>x\<bar> < 2 ^ 53")
    case True
    from ulp_exponent_bounds [OF one True] obtain k :: nat where k: "ulp_exponent x = - int k"
      by (metis nonpos_int_cases)
    have "2 powr of_int (ulp_exponent x) = inverse (2 ^ k :: real)"
      by (simp add: k powr_minus powr_realpow)
    then have "x / 2 powr of_int (ulp_exponent x) = of_int (n * 2 ^ k)"
      by (simp add: n field_simps)
    from round_double_grid [OF False this big] show ?thesis .
  next
    case False
    with assms(2) have eq: "\<bar>x\<bar> = 2 ^ 53" by simp
    then have "ulp_exponent x = 1" by (intro ulp_exponent_2_53) auto
    moreover from eq have "x = 2 ^ 53 \<or> x = - (2 ^ 53)" by (auto simp: abs_if split: if_splits)
    then have "x / 2 = of_int (2 ^ 52) \<or> x / 2 = of_int (- (2 ^ 52))" by auto
    then obtain z :: int where "x / 2 = of_int z" by blast
    ultimately have "x / 2 powr of_int (ulp_exponent x) = of_int z" by simp
    from round_double_grid [OF \<open>x \<noteq> 0\<close> this big] show ?thesis .
  qed
qed

lemma js_add_safe:
  assumes "x \<in> \<int>" and "\<bar>x\<bar> < 2 ^ 53"
  shows "js_add (Num x) (Num 1) = Num (x + 1)"
proof -
  from assms(1) obtain n :: int where n: "x = of_int n" by (auto elim: Ints_cases)
  with assms(2) have "\<bar>n\<bar> < 2 ^ 53" by (metis of_int_abs of_int_less_numeral_power_cancel_iff)
  then have "\<bar>n + 1\<bar> \<le> 2 ^ 53" by linarith
  then have "\<bar>x + 1\<bar> \<le> 2 ^ 53" unfolding n
    by (metis of_int_1 of_int_add of_int_abs of_int_le_numeral_power_cancel_iff)
  moreover have "x + 1 \<in> \<int>" using assms(1) by simp
  ultimately show ?thesis by (simp add: round_double_int)
qed

lemma round_double_eq:
  assumes "x \<noteq> 0" and "ulp_exponent x = e" and "round_half_even (x / 2 powr of_int e) = m"
    and "\<bar>of_int m * 2 powr of_int e\<bar> < (2 ^ 1024 :: real)"
  shows "round_double x = Num (of_int m * 2 powr of_int e)"
  using assms by (simp add: round_double_def Let_def)

lemma js_add_2_53: "js_add (Num (2 ^ 53)) (Num 1) = Num (2 ^ 53)"
proof -
  let ?x = "2 ^ 53 + 1 :: real"
  have e: "ulp_exponent ?x = 1" by (rule ulp_exponent_2_53) simp_all
  have f: "\<lfloor>?x / 2\<rfloor> = 2 ^ 52" by (simp add: floor_eq_iff)
  have "round_half_even (?x / 2) = 2 ^ 52"
    unfolding round_half_even_def Let_def f by simp
  then have r: "round_half_even (?x / 2 powr of_int 1) = 2 ^ 52" by simp
  have b: "\<bar>of_int (2 ^ 52) * 2 powr of_int 1\<bar> < (2 ^ 1024 :: real)" by simp
  have "round_double ?x = Num (of_int (2 ^ 52) * 2 powr of_int 1)"
    by (rule round_double_eq [OF _ e r b]) simp
  then show ?thesis by simp
qed

subsection \<open>The filter and the page size\<close>

lemma buildQuery_size:
  "json_get size_path (buildQuery cq rf opts) =
     Some (JNum (js_add (pg_limit (opt_pagination opts)) (Num 1)))"
  by (simp add: buildQuery_def size_path_def Let_def split: option.splits)

text \<open>
  At a limit of \<open>2 ^ 53\<close> the sum is not a double, and the size is the limit itself.
\<close>

lemma buildQuery_size_2_53:
  assumes "pg_limit (opt_pagination opts) = Num (2 ^ 53)"
  shows "json_get size_path (buildQuery cq rf opts) = Some (JNum (Num (2 ^ 53)))"
  using buildQuery_size [of cq rf opts] assms by (simp only: js_add_2_53)

text \<open>
  C5. For every request, the filter of the query's \<^verbatim>\<open>bool\<close> is the list of the clauses
  produced from \<^verbatim>\<open>filterQuery\<close>, followed by the term on \<^verbatim>\<open>event.category\<close>, the term on
  \<^verbatim>\<open>process.exe\<close>, the terms on \<^verbatim>\<open>event.type\<close> and the range on the configured
  timestamp field from \<^verbatim>\<open>from\<close> to \<^verbatim>\<open>to\<close>; the size of the composite aggregation
  \<^verbatim>\<open>group_by_users\<close> is JavaScript's sum \<^verbatim>\<open>limit + 1\<close>, the double nearest to the limit
  plus one, which for a whole limit of magnitude below \<open>2 ^ 53\<close> is the limit plus one
  exactly.
\<close>

theorem buildQuery_filter_and_size:
  "json_get filter_path (buildQuery cq rf opts) =
     Some (JArr (cq (filterQuery opts) @
       [JObj [(''term'', JObj [(''event.category'', JStr ''user-login'')])],
        JObj [(''term'', JObj [(''process.exe'', JStr ''/usr/sbin/sshd'')])],
        JObj [(''terms'', JObj [(''event.type'', JArr [JStr ''user_login'', JStr ''user_start''])])],
        JObj [(''range'',
               JObj [(timestamp (sc_fields (sourceConfiguration opts)),
                      JObj [(''gte'', JNum (tr_from (opt_timerange opts))),
                            (''lte'', JNum (tr_to (opt_timerange opts)))])])]])) \<and>
   json_get size_path (buildQuery cq rf opts) =
     Some (JNum (js_add (pg_limit (opt_pagination opts)) (Num 1))) \<and>
   (pg_limit (opt_pagination opts) = Num n \<and> n \<in> \<int> \<and> \<bar>n\<bar> < 2 ^ 53 \<longrightarrow>
      json_get size_path (buildQuery cq rf opts) = Some (JNum (Num (n + 1))))"
proof -
  have f: "json_get filter_path (buildQuery cq rf opts) =
     Some (JArr (cq (filterQuery opts) @
       [JObj [(''term'', JObj [(''event.category'', JStr ''user-login'')])],
        JObj [(''term'', JObj [(''process.exe'', JStr ''/usr/sbin/sshd'')])],
        JObj [(''terms'', JObj [(''event.type'', JArr [JStr ''user_login'', JStr ''user_start''])])],
        JObj [(''range'',
               JObj [(timestamp (sc_fields (sourceConfiguration opts)),
                      JObj [(''gte'', JNum (tr_from (opt_timerange opts))),
                            (''lte'', JNum (tr_to (opt_timerange opts)))])])]]))"
    by (simp add: buildQuery_def filter_path_def Let_def split: option.splits)
  have e: "pg_limit (opt_pagination opts) = Num n \<and> n \<in> \<int> \<and> \<bar>n\<bar> < 2 ^ 53 \<longrightarrow>
      json_get size_path (buildQuery cq rf opts) = Some (JNum (Num (n + 1)))"
    using buildQuery_size [of cq rf opts] js_add_safe [of n] by auto
  from f buildQuery_size [of cq rf opts] e show ?thesis by blast
qed

theorem buildQuery_filter_and_size_witness:
  "pg_limit (opt_pagination example_options) = Num 10 \<and> (10 :: real) \<in> \<int> \<and>
   \<bar>10 :: real\<bar> < 2 ^ 53 \<and>
   json_get size_path
     (buildQuery example_createQueryFilterClauses example_reduceFields example_options) =
     Some (JNum (Num (10 + 1)))"
proof -
  have h: "pg_limit (opt_pagination example_options) = Num 10 \<and> (10 :: real) \<in> \<int> \<and>
      \<bar>10 :: real\<bar> < 2 ^ 53"
    by (simp add: example_options_def)
  from buildQuery_filter_and_size
    [of example_createQueryFilterClauses example_reduceFields example_options 10] h
  show ?thesis by blast
qed

subsection \<open>The cursor\<close>

lemma buildQuery_after:
  assumes "pg_cursor (opt_pagination opts) = Some c" "c \<noteq> []"
  shows "json_get after_path (buildQuery cq rf opts) = Some (JObj [(''user_uid'', JStr c)])"
  using assms by (simp add: buildQuery_def after_path_def Let_def)

lemma buildQuery_no_after:
  assumes "\<not> truthy (pg_cursor (opt_pagination opts))"
  shows "json_get after_path (buildQuery cq rf opts) = None"
  using assms by (simp add: buildQuery_def after_path_def Let_def truthy_def split: option.splits)

lemma buildQuery_remove_after:
  assumes "pg_cursor (opt_pagination opts) = Some c" "c \<noteq> []" "\<not> truthy c0"
  shows "json_remove after_path (buildQuery cq rf opts) =
         buildQuery cq rf (opts\<lparr>opt_pagination := (opt_pagination opts)\<lparr>pg_cursor := c0\<rparr>\<rparr>)"
  using assms by (simp add: buildQuery_def after_path_def Let_def truthy_def split: option.splits)

text \<open>Removing a path that is absent changes nothing.\<close>

lemma json_remove_absent: "json_get p j = None \<Longrightarrow> json_remove p j = j"
  and remove_in_absent: "(case map_of fs k of None \<Rightarrow> None | Some v \<Rightarrow> json_get ks v) = None \<Longrightarrow> remove_in k ks fs = fs"
  by (induction p j and k ks fs rule: json_remove_remove_in.induct)
     (auto split: option.splits if_splits)

text \<open>
  Removing a path leaves every path alone that neither leads to it nor goes through it.
\<close>

lemma json_get_remove_other:
  "\<not> prefix p q \<Longrightarrow> \<not> prefix q p \<Longrightarrow> json_get q (json_remove p j) = json_get q j"
  and "\<not> prefix (k # ks) q \<Longrightarrow> \<not> prefix q (k # ks) \<Longrightarrow>
       json_get q (JObj (remove_in k ks fs)) = json_get q (JObj fs)"
proof (induction p j and k ks fs arbitrary: q and q rule: json_remove_remove_in.induct)
  case (5 k ks k' v fs)
  from "5.prems" obtain q0 qs where q: "q = q0 # qs" by (cases q) auto
  show ?case
  proof (cases "k' = k")
    case True
    show ?thesis
    proof (cases "q0 = k")
      case k: True
      with "5.prems" q have ks: "ks \<noteq> []" and pq: "\<not> prefix ks qs" "\<not> prefix qs ks" by auto
      with "5.IH"(1) [OF True, of qs] True k q show ?thesis by simp
    next
      case False
      with True q show ?thesis by simp
    qed
  next
    case False
    from "5.IH"(2) [OF False "5.prems"] False q show ?thesis
      by (cases "q0 = k'") simp_all
  qed
qed simp_all

text \<open>
  C6. For a request with a truthy cursor \<open>c\<close>, the query holds \<^verbatim>\<open>{ user_uid: c }\<close> at
  \<^verbatim>\<open>body.aggregations.group_by_users.composite.after\<close>; the query for the same request
  without a cursor (\<open>c0\<close> is absent or empty) has nothing at that path; taking the field
  away from the first query gives the second; and at every path that neither leads to the
  field nor goes through it the two queries hold the same.
\<close>

theorem buildQuery_cursor_frame:
  assumes "pg_cursor (opt_pagination opts) = Some c" and "c \<noteq> []" and "\<not> truthy c0"
  shows "json_get after_path (buildQuery cq rf opts) = Some (JObj [(''user_uid'', JStr c)]) \<and>
         json_get after_path
           (buildQuery cq rf (opts\<lparr>opt_pagination := (opt_pagination opts)\<lparr>pg_cursor := c0\<rparr>\<rparr>)) = None \<and>
         json_remove after_path (buildQuery cq rf opts) =
           buildQuery cq rf (opts\<lparr>opt_pagination := (opt_pagination opts)\<lparr>pg_cursor := c0\<rparr>\<rparr>) \<and>
         (\<not> prefix after_path q \<and> \<not> prefix q after_path \<longrightarrow>
            json_get q (buildQuery cq rf opts) =
            json_get q
              (buildQuery cq rf (opts\<lparr>opt_pagination := (opt_pagination opts)\<lparr>pg_cursor := c0\<rparr>\<rparr>)))"
proof -
  let ?opts0 = "opts\<lparr>opt_pagination := (opt_pagination opts)\<lparr>pg_cursor := c0\<rparr>\<rparr>"
  have a: "json_get after_path (buildQuery cq rf opts) = Some (JObj [(''user_uid'', JStr c)])"
    by (rule buildQuery_after [OF assms(1,2)])
  have b: "json_get after_path (buildQuery cq rf ?opts0) = None"
    using buildQuery_no_after [of ?opts0] assms(3) by simp
  have r: "json_remove after_path (buildQuery cq rf opts) = buildQuery cq rf ?opts0"
    by (rule buildQuery_remove_after [OF assms])
  have f: "\<not> prefix after_path q \<and> \<not> prefix q after_path \<longrightarrow>
      json_get q (buildQuery cq rf opts) = json_get q (buildQuery cq rf ?opts0)"
    using json_get_remove_other(1) [of after_path q "buildQuery cq rf opts"] r by simp
  from a b r f show ?thesis by blast
qed

theorem buildQuery_cursor_frame_witness:
  "pg_cursor (opt_pagination example_options) = Some ''root'' \<and> ''root'' \<noteq> [] \<and> \<not> truthy None \<and>
   \<not> prefix after_path size_path \<and> \<not> prefix size_path after_path \<and>
   json_get after_path (buildQuery example_createQueryFilterClauses example_reduceFields example_options) =
     Some (JObj [(''user_uid'', JStr ''root'')]) \<and>
   json_remove after_path (buildQuery example_createQueryFilterClauses example_reduceFields example_options) =
     buildQuery example_createQueryFilterClauses example_reduceFields
       (example_options\<lparr>opt_pagination := (opt_pagination example_options)\<lparr>pg_cursor := None\<rparr>\<rparr>) \<and>
   json_get size_path (buildQuery example_createQueryFilterClauses example_reduceFields example_options) =
     json_get size_path
       (buildQuery example_createQueryFilterClauses example_reduceFields
          (example_options\<lparr>opt_pagination := (opt_pagination example_options)\<lparr>pg_cursor := None\<rparr>\<rparr>))"
proof -
  have h1: "pg_cursor (opt_pagination example_options) = Some ''root''"
    by (simp add: example_options_def)
  have h2: "''root'' \<noteq> []" by simp
  have h3: "\<not> truthy None" by (simp add: truthy_def)
  have h4: "\<not> prefix after_path size_path \<and> \<not> prefix size_path after_path"
    by (simp add: after_path_def size_path_def)
  from buildQuery_cursor_frame [OF h1 h2 h3, where q = size_path] h1 h2 h3 h4 show ?thesis by blast
qed

section \<open>Properties of the suggestions\<close>

subsection \<open>Sorting with a comparator\<close>

lemma mset_insort_by: "mset (insort_by cmp x xs) = add_mset x (mset xs)"
  by (induction xs) auto

lemma mset_sort_by: "mset (sort_by cmp xs) = mset xs"
  by (induction xs) (auto simp: mset_insort_by)

lemma set_insort_by: "set (insort_by cmp x xs) = insert x (set xs)"
  by (induction xs) auto

lemma sorted_insort_by:
  assumes total: "\<And>a b. cmp a b \<le> 0 \<or> cmp b a \<le> 0"
    and trans: "\<And>a b c. cmp a b \<le> 0 \<Longrightarrow> cmp b c \<le> 0 \<Longrightarrow> cmp a c \<le> 0"
    and sorted: "sorted_wrt (\<lambda>a b. cmp a b \<le> 0) xs"
  shows "sorted_wrt (\<lambda>a b. cmp a b \<le> 0) (insort_by cmp x xs)"
  using sorted
proof (induction xs)
  case Nil
  then show ?case by simp
next
  case (Cons y ys)
  show ?case
  proof (cases "cmp x y \<le> 0")
    case True
    with Cons.prems show ?thesis by (auto intro: trans)
  next
    case False
    with total [of x y] have "cmp y x \<le> 0" by simp
    with Cons False show ?thesis by (auto simp: set_insort_by)
  qed
qed

lemma sorted_sort_by:
  assumes "\<And>a b. cmp a b \<le> 0 \<or> cmp b a \<le> 0"
    and "\<And>a b c. cmp a b \<le> 0 \<Longrightarrow> cmp b c \<le> 0 \<Longrightarrow> cmp a c \<le> 0"
  shows "sorted_wrt (\<lambda>a b. cmp a b \<le> 0) (sort_by cmp xs)"
  by (induction xs) (simp_all add: sorted_insort_by assms)

subsection \<open>The functions a command or an option supports\<close>

lemma fnSupportedByCommand_mset:
  "mset (fnSupportedByCommand fs lc cmd opt ign) =
   filter_mset
     (\<lambda>f. (case opt of
              None \<Rightarrow> cmd \<in> set (supportedCommands f)
            | Some opt' \<Rightarrow>
                if opt' = [] then cmd \<in> set (supportedCommands f)
                else (case supportedOptions f of None \<Rightarrow> False | Some os \<Rightarrow> opt' \<in> set os)) \<and>
           fn_name f \<notin> set ign)
     (mset fs)"
  unfolding fnSupportedByCommand_def mset_sort_by mset_filter
  by (rule filter_mset_cong) (auto split: option.splits)

lemma fnSupportedByCommand_sorted:
  assumes "\<And>a b. lc a b \<le> 0 \<or> lc b a \<le> 0"
    and "\<And>a b c. lc a b \<le> 0 \<Longrightarrow> lc b c \<le> 0 \<Longrightarrow> lc a c \<le> 0"
  shows "sorted_wrt (\<lambda>a b. lc (fn_name a) (fn_name b) \<le> 0) (fnSupportedByCommand fs lc cmd opt ign)"
  unfolding fnSupportedByCommand_def
  by (rule sorted_sort_by) (use assms in blast)+

subsection \<open>Mapping a function that may throw, and the test on return types\<close>

lemma mapE_map: "mapE f xs = Inr ys \<Longrightarrow> map f xs = map Inr ys"
  by (induction xs arbitrary: ys) (auto split: sum.splits)

lemma mapE_total:
  assumes "\<forall>x \<in> set xs. \<exists>y. f x = Inr y"
  shows "\<exists>ys. mapE f xs = Inr ys"
  using assms by (induction xs) (auto split: sum.splits)

lemma getSuggestionFunctionDefinition_Inr:
  "gfs f \<noteq> [] \<Longrightarrow> \<exists>y. getSuggestionFunctionDefinition gfs bfd f = Inr y"
  by (auto simp: getSuggestionFunctionDefinition_def Let_def split: list.splits)

lemma returnTypes_test:
  "list_ex (\<lambda>sg. (case r of [] \<Rightarrow> False | x # _ \<Rightarrow> x = ''any'') \<or> returnType sg \<in> set r) sigs \<longleftrightarrow>
   sigs \<noteq> [] \<and> (r \<noteq> [] \<and> hd r = ''any'' \<or> (\<exists>sg \<in> set sigs. returnType sg \<in> set r))"
  by (cases r; cases sigs) (auto simp: list_ex_iff)

subsection \<open>The example comparator is a consistent ordering\<close>

lemma example_localeCompare_total: "example_localeCompare a b \<le> 0 \<or> example_localeCompare b a \<le> 0"
  by (induction a b rule: example_localeCompare.induct) auto

lemma example_localeCompare_trans:
  "example_localeCompare a b \<le> 0 \<Longrightarrow> example_localeCompare b c \<le> 0 \<Longrightarrow> example_localeCompare a c \<le> 0"
proof (induction a b arbitrary: c rule: example_localeCompare.induct)
  case 1
  then show ?case by simp
next
  case (2 y ys)
  then show ?case by (cases c) simp_all
next
  case (3 x xs)
  then show ?case by simp
next
  case (4 x xs y ys)
  show ?case
  proof (cases c)
    case Nil
    with 4 show ?thesis by (simp split: if_splits)
  next
    case (Cons z zs)
    show ?thesis
    proof (cases "(of_char x :: nat) < of_char y")
      case True
      from 4(3) Cons have "(of_char y :: nat) \<le> of_char z" by (simp split: if_splits)
      with True have "(of_char x :: nat) < of_char z" by simp
      then show ?thesis by (simp add: Cons)
    next
      case False
      with 4(2) have xy: "(of_char x :: nat) = of_char y" and r: "example_localeCompare xs ys \<le> 0"
        by (simp_all split: if_splits)
      show ?thesis
      proof (cases "(of_char y :: nat) < of_char z")
        case True
        with xy show ?thesis by (simp add: Cons)
      next
        case False
        with 4(3) Cons have yz: "(of_char y :: nat) = of_char z" and r': "example_localeCompare ys zs \<le> 0"
          by (simp_all split: if_splits)
        from 4(1) [of zs] xy r r' have "example_localeCompare xs zs \<le> 0" by simp
        with xy yz show ?thesis by (simp add: Cons)
      qed
    qed
  qed
qed

lemma example_stats_result:
  "getCompatibleFunctionDefinition [example_avg, example_abs] example_localeCompare
     example_getFunctionSignatures example_buildFunctionDocumentation
     ''stats'' None (Some [''number'']) [] =
   Inr [\<lparr>sg_label = ''ABS: number'', sg_text = ''ABS($0)'', sg_asSnippet = Some True,
          sg_kind = ''Function'', sg_detail = ''Returns the absolute value.'',
          sg_documentation = Some ''ABS: number'', sg_sortText = ''C'',
          sg_command = Some TRIGGER_SUGGESTION_COMMAND\<rparr>,
        \<lparr>sg_label = ''AVG: number'', sg_text = ''AVG($0)'', sg_asSnippet = Some True,
          sg_kind = ''Function'', sg_detail = ''Returns the average of the values.'',
          sg_documentation = Some ''AVG: number'', sg_sortText = ''1A'',
          sg_command = Some TRIGGER_SUGGESTION_COMMAND\<rparr>]"
  by (simp add: getCompatibleFunctionDefinition_def fnSupportedByCommand_def
      getSuggestionFunctionDefinition_def example_avg_def example_abs_def
      example_getFunctionSignatures_def example_buildFunctionDocumentation_def toUpperCase_def Let_def)

subsection \<open>Compatible functions\<close>

text \<open>
  What the code computes on any table: the suggestions of a list \<open>fs\<close> that is in
  ascending order of name and holds the functions passing the two filters. The test on
  return types runs over the signatures of a function, so it needs one to succeed.
\<close>

lemma compatible_functions_list:
  assumes total: "\<forall>a b. lc a b \<le> 0 \<or> lc b a \<le> 0"
    and trans: "\<forall>a b c. lc a b \<le> 0 \<and> lc b c \<le> 0 \<longrightarrow> lc a c \<le> 0"
  shows "\<exists>fs.
     getCompatibleFunctionDefinition allFunctions lc gfs bfd cmd opt rts ign =
       mapE (getSuggestionFunctionDefinition gfs bfd) fs \<and>
     sorted_wrt (\<lambda>a b. lc (fn_name a) (fn_name b) \<le> 0) fs \<and>
     mset fs =
       filter_mset
         (\<lambda>f. (case opt of
                  None \<Rightarrow> cmd \<in> set (supportedCommands f)
                | Some opt' \<Rightarrow>
                    if opt' = [] then cmd \<in> set (supportedCommands f)
                    else (case supportedOptions f of None \<Rightarrow> False | Some os \<Rightarrow> opt' \<in> set os)) \<and>
               fn_name f \<notin> set ign \<and>
               (case rts of
                  None \<Rightarrow> True
                | Some r \<Rightarrow>
                    signatures f \<noteq> [] \<and>
                    (r \<noteq> [] \<and> hd r = ''any'' \<or> (\<exists>sg \<in> set (signatures f). returnType sg \<in> set r))))
         (mset allFunctions) \<and>
     ((\<forall>f \<in> set fs. gfs f \<noteq> []) \<longrightarrow>
        (\<exists>ss. getCompatibleFunctionDefinition allFunctions lc gfs bfd cmd opt rts ign = Inr ss \<and>
              map (getSuggestionFunctionDefinition gfs bfd) fs = map Inr ss))"
proof -
  let ?base = "fnSupportedByCommand allFunctions lc cmd opt ign"
  let ?keep = "\<lambda>f. list_ex (\<lambda>sg. (case the rts of [] \<Rightarrow> False | x # _ \<Rightarrow> x = ''any'') \<or>
                                  returnType sg \<in> set (the rts)) (signatures f)"
  define fs where "fs = (case rts of None \<Rightarrow> ?base | Some r \<Rightarrow> filter ?keep ?base)"
  have res: "getCompatibleFunctionDefinition allFunctions lc gfs bfd cmd opt rts ign =
       mapE (getSuggestionFunctionDefinition gfs bfd) fs"
    by (simp add: getCompatibleFunctionDefinition_def fs_def split: option.splits)
  have srt: "sorted_wrt (\<lambda>a b. lc (fn_name a) (fn_name b) \<le> 0) fs"
  proof -
    have "sorted_wrt (\<lambda>a b. lc (fn_name a) (fn_name b) \<le> 0) ?base"
    proof (rule fnSupportedByCommand_sorted)
      show "lc a b \<le> 0 \<or> lc b a \<le> 0" for a b using total by blast
      show "lc a b \<le> 0 \<Longrightarrow> lc b c \<le> 0 \<Longrightarrow> lc a c \<le> 0" for a b c using trans by blast
    qed
    then show ?thesis by (auto simp: fs_def sorted_wrt_filter split: option.splits)
  qed
  have ms: "mset fs =
       filter_mset
         (\<lambda>f. (case opt of
                  None \<Rightarrow> cmd \<in> set (supportedCommands f)
                | Some opt' \<Rightarrow>
                    if opt' = [] then cmd \<in> set (supportedCommands f)
                    else (case supportedOptions f of None \<Rightarrow> False | Some os \<Rightarrow> opt' \<in> set os)) \<and>
               fn_name f \<notin> set ign \<and>
               (case rts of
                  None \<Rightarrow> True
                | Some r \<Rightarrow>
                    signatures f \<noteq> [] \<and>
                    (r \<noteq> [] \<and> hd r = ''any'' \<or> (\<exists>sg \<in> set (signatures f). returnType sg \<in> set r))))
         (mset allFunctions)"
  proof (cases rts)
    case None
    then show ?thesis by (simp add: fs_def fnSupportedByCommand_mset)
  next
    case (Some r)
    then show ?thesis
      by (auto simp: fs_def fnSupportedByCommand_mset returnTypes_test filter_filter_mset
          intro!: filter_mset_cong)
  qed
  have tot: "(\<forall>f \<in> set fs. gfs f \<noteq> []) \<longrightarrow>
        (\<exists>ss. getCompatibleFunctionDefinition allFunctions lc gfs bfd cmd opt rts ign = Inr ss \<and>
              map (getSuggestionFunctionDefinition gfs bfd) fs = map Inr ss)"
  proof
    assume "\<forall>f \<in> set fs. gfs f \<noteq> []"
    then have "\<forall>f \<in> set fs. \<exists>y. getSuggestionFunctionDefinition gfs bfd f = Inr y"
      by (blast intro: getSuggestionFunctionDefinition_Inr)
    from mapE_total [OF this] obtain ss where
      ss: "mapE (getSuggestionFunctionDefinition gfs bfd) fs = Inr ss" by blast
    with res mapE_map [OF ss] show "\<exists>ss. getCompatibleFunctionDefinition allFunctions lc gfs bfd cmd opt rts ign = Inr ss \<and>
              map (getSuggestionFunctionDefinition gfs bfd) fs = map Inr ss"
      by simp
  qed
  from res srt ms tot show ?thesis by blast
qed

text \<open>
  C7, as amended. Take a table in which every function has a signature and is given a full
  signature by the signature helper, as \<^verbatim>\<open>getSuggestionFunctionDefinition\<close> presumes when
  it reads the first one, and a comparator that is a total preorder. Then the call returns
  the suggestions, one for each and in the order, of a list \<open>fs\<close> of functions which is in
  ascending order of name and holds exactly the functions of the table that
  \<^item> support the command, when the option is \<^verbatim>\<open>undefined\<close> or the empty string, or support
    the option, when it is a non-empty string,
  \<^item> have a name that is not ignored, and
  \<^item> when return types are given, have \<^verbatim>\<open>any\<close> as the first return type given or a
    signature whose return type is among those given.
\<close>

theorem getCompatibleFunctionDefinition_exact:
  assumes total: "\<forall>a b. lc a b \<le> 0 \<or> lc b a \<le> 0"
    and trans: "\<forall>a b c. lc a b \<le> 0 \<and> lc b c \<le> 0 \<longrightarrow> lc a c \<le> 0"
    and table: "\<forall>f \<in> set allFunctions. signatures f \<noteq> [] \<and> gfs f \<noteq> []"
  shows "\<exists>fs ss.
     getCompatibleFunctionDefinition allFunctions lc gfs bfd cmd opt rts ign = Inr ss \<and>
     map (getSuggestionFunctionDefinition gfs bfd) fs = map Inr ss \<and>
     sorted_wrt (\<lambda>a b. lc (fn_name a) (fn_name b) \<le> 0) fs \<and>
     mset fs =
       filter_mset
         (\<lambda>f. (case opt of
                  None \<Rightarrow> cmd \<in> set (supportedCommands f)
                | Some opt' \<Rightarrow>
                    if opt' = [] then cmd \<in> set (supportedCommands f)
                    else (case supportedOptions f of None \<Rightarrow> False | Some os \<Rightarrow> opt' \<in> set os)) \<and>
               fn_name f \<notin> set ign \<and>
               (case rts of
                  None \<Rightarrow> True
                | Some r \<Rightarrow>
                    r \<noteq> [] \<and> hd r = ''any'' \<or> (\<exists>sg \<in> set (signatures f). returnType sg \<in> set r)))
         (mset allFunctions)"
proof -
  let ?P = "\<lambda>f. (case opt of
                  None \<Rightarrow> cmd \<in> set (supportedCommands f)
                | Some opt' \<Rightarrow>
                    if opt' = [] then cmd \<in> set (supportedCommands f)
                    else (case supportedOptions f of None \<Rightarrow> False | Some os \<Rightarrow> opt' \<in> set os)) \<and>
               fn_name f \<notin> set ign \<and>
               (case rts of
                  None \<Rightarrow> True
                | Some r \<Rightarrow>
                    signatures f \<noteq> [] \<and>
                    (r \<noteq> [] \<and> hd r = ''any'' \<or> (\<exists>sg \<in> set (signatures f). returnType sg \<in> set r)))"
  let ?Q = "\<lambda>f. (case opt of
                  None \<Rightarrow> cmd \<in> set (supportedCommands f)
                | Some opt' \<Rightarrow>
                    if opt' = [] then cmd \<in> set (supportedCommands f)
                    else (case supportedOptions f of None \<Rightarrow> False | Some os \<Rightarrow> opt' \<in> set os)) \<and>
               fn_name f \<notin> set ign \<and>
               (case rts of
                  None \<Rightarrow> True
                | Some r \<Rightarrow>
                    r \<noteq> [] \<and> hd r = ''any'' \<or> (\<exists>sg \<in> set (signatures f). returnType sg \<in> set r))"
  from compatible_functions_list [OF total trans, of allFunctions gfs bfd cmd opt rts ign]
  obtain fs where
    res: "getCompatibleFunctionDefinition allFunctions lc gfs bfd cmd opt rts ign =
            mapE (getSuggestionFunctionDefinition gfs bfd) fs"
    and srt: "sorted_wrt (\<lambda>a b. lc (fn_name a) (fn_name b) \<le> 0) fs"
    and ms: "mset fs = filter_mset ?P (mset allFunctions)"
    and tot: "(\<forall>f \<in> set fs. gfs f \<noteq> []) \<longrightarrow>
        (\<exists>ss. getCompatibleFunctionDefinition allFunctions lc gfs bfd cmd opt rts ign = Inr ss \<and>
              map (getSuggestionFunctionDefinition gfs bfd) fs = map Inr ss)"
    by blast
  have "filter_mset ?P (mset allFunctions) = filter_mset ?Q (mset allFunctions)"
    by (rule filter_mset_cong) (use table in \<open>auto split: option.splits\<close>)
  with ms have ms': "mset fs = filter_mset ?Q (mset allFunctions)" by simp
  have "set fs \<subseteq> set allFunctions"
  proof -
    have "set_mset (mset fs) \<subseteq> set_mset (mset allFunctions)" unfolding ms by auto
    then show ?thesis by simp
  qed
  with table have "\<forall>f \<in> set fs. gfs f \<noteq> []" by blast
  with tot obtain ss where
    "getCompatibleFunctionDefinition allFunctions lc gfs bfd cmd opt rts ign = Inr ss"
    "map (getSuggestionFunctionDefinition gfs bfd) fs = map Inr ss"
    by blast
  with srt ms' show ?thesis by blast
qed

theorem getCompatibleFunctionDefinition_exact_witness:
  "(\<exists>fs ss. getCompatibleFunctionDefinition [example_avg, example_abs] example_localeCompare
            example_getFunctionSignatures example_buildFunctionDocumentation
            ''stats'' None (Some [''number'']) [] = Inr ss \<and>
          map (getSuggestionFunctionDefinition example_getFunctionSignatures
                 example_buildFunctionDocumentation) fs = map Inr ss \<and>
          sorted_wrt (\<lambda>a b. example_localeCompare (fn_name a) (fn_name b) \<le> 0) fs) \<and>
   getCompatibleFunctionDefinition [example_avg, example_abs] example_localeCompare
     example_getFunctionSignatures example_buildFunctionDocumentation
     ''stats'' None (Some [''number'']) [] =
   Inr [\<lparr>sg_label = ''ABS: number'', sg_text = ''ABS($0)'', sg_asSnippet = Some True,
          sg_kind = ''Function'', sg_detail = ''Returns the absolute value.'',
          sg_documentation = Some ''ABS: number'', sg_sortText = ''C'',
          sg_command = Some TRIGGER_SUGGESTION_COMMAND\<rparr>,
        \<lparr>sg_label = ''AVG: number'', sg_text = ''AVG($0)'', sg_asSnippet = Some True,
          sg_kind = ''Function'', sg_detail = ''Returns the average of the values.'',
          sg_documentation = Some ''AVG: number'', sg_sortText = ''1A'',
          sg_command = Some TRIGGER_SUGGESTION_COMMAND\<rparr>]"
proof -
  have total: "\<forall>a b. example_localeCompare a b \<le> 0 \<or> example_localeCompare b a \<le> 0"
    using example_localeCompare_total by blast
  have trans: "\<forall>a b c. example_localeCompare a b \<le> 0 \<and> example_localeCompare b c \<le> 0 \<longrightarrow>
      example_localeCompare a c \<le> 0"
    using example_localeCompare_trans by blast
  have table: "\<forall>f \<in> set [example_avg, example_abs].
      signatures f \<noteq> [] \<and> example_getFunctionSignatures f \<noteq> []"
    by (simp add: example_avg_def example_abs_def example_getFunctionSignatures_def)
  from getCompatibleFunctionDefinition_exact
    [OF total trans table, of example_buildFunctionDocumentation "''stats''" None
        "Some [''number'']" "[]"]
    example_stats_result
  show ?thesis by blast
qed

text \<open>
  C7 as stated fails for the empty string as option, which is a string that was provided:
  the functions returned are those supporting the command, here \<^verbatim>\<open>abs\<close>, which supports
  the option \<^verbatim>\<open>by\<close> only, while \<^verbatim>\<open>avg\<close> supports no option at all.
\<close>

theorem getCompatibleFunctionDefinition_empty_option_counterexample:
  "getCompatibleFunctionDefinition [example_avg, example_abs] example_localeCompare
     example_getFunctionSignatures example_buildFunctionDocumentation
     ''eval'' (Some []) None [] =
   Inr [\<lparr>sg_label = ''ABS: number'', sg_text = ''ABS($0)'', sg_asSnippet = Some True,
          sg_kind = ''Function'', sg_detail = ''Returns the absolute value.'',
          sg_documentation = Some ''ABS: number'', sg_sortText = ''C'',
          sg_command = Some TRIGGER_SUGGESTION_COMMAND\<rparr>] \<and>
   supportedOptions example_abs = Some [''by''] \<and>
   supportedOptions example_avg = None"
  by (simp add: getCompatibleFunctionDefinition_def fnSupportedByCommand_def
      getSuggestionFunctionDefinition_def example_avg_def example_abs_def
      example_getFunctionSignatures_def example_buildFunctionDocumentation_def toUpperCase_def Let_def)

end
